theory Spec2Isabelle
  imports Main "HOL-Library.Sublist" "HOL-Library.Product_Lexorder"
begin

section \<open>Python values used by webspider.py\<close>

text \<open>
  Python strings are modelled as \<^typ>\<open>string\<close>; a \<^typ>\<open>char\<close> stands for a code point
  below 256. A dictionary is an association list in insertion order (Python dictionaries
  keep it, and \<open>save_to_csv\<close> depends on it). The values of a scraped item are
  \<open>None\<close> or a string, as \<open>scrape_website\<close> produces them.
\<close>

type_synonym item = "(string \<times> string option) list"
type_synonym policy = "(string \<times> string list) list"

text \<open>\<open>datetime.date\<close>: year, month, day, compared in that order.\<close>

type_synonym date = "nat \<times> nat \<times> nat"

text \<open>
  The exceptions that reach a handler of the source. \<open>RequestException\<close> stands for the
  members of the \<open>requests\<close> hierarchy other than \<open>HTTPError\<close> (connection errors,
  timeouts, invalid URLs); \<open>HTTPError\<close> is a subclass of it, raised by
  \<open>raise_for_status\<close>. \<open>ReError\<close> is \<open>re.error\<close>, which the date parser raises
  for a format that repeats a directive. \<open>OtherException\<close> is any exception outside that
  hierarchy that is not one of the named ones, for instance the error of the selector
  engine on a selector it cannot parse.
\<close>

datatype exn =
    RequestException
  | HTTPError int
  | ValueError
  | KeyError
  | OSError
  | ReError
  | OtherException

fun is_RequestException :: "exn \<Rightarrow> bool" where
  "is_RequestException RequestException = True"
| "is_RequestException (HTTPError _) = True"
| "is_RequestException _ = False"

text \<open>The lines the program prints, one constructor per \<open>print\<close> call of the source.\<close>

datatype diag =
    ErrorFetchingURL exn
  | AnErrorOccurred exn
  | ErrorFetchingKeywords exn
  | RobotsNotFound string
  | ErrorFetchingRobots exn
  | ErrorDetectingTechnologies exn
  | MissingDate item
  | ErrorProcessingDate item exn
  | NoDataToSave
  | DataSaved string

text \<open>A response of \<open>requests.get\<close>; \<open>resp_text\<close> is its \<open>text\<close> attribute.\<close>

record response =
  status_code :: int
  resp_text :: string
  headers :: "(string \<times> string) list"

subsection \<open>String methods\<close>

text \<open>\<open>str.isspace\<close> on one code point below 256.\<close>

definition py_isspace :: "char \<Rightarrow> bool" where
  "py_isspace c = ((of_char c :: nat) \<in> {9, 10, 11, 12, 13, 28, 29, 30, 31, 32, 133, 160})"

definition lstrip :: "string \<Rightarrow> string" where
  "lstrip s = dropWhile py_isspace s"

definition rstrip :: "string \<Rightarrow> string" where
  "rstrip s = rev (dropWhile py_isspace (rev s))"

text \<open>\<open>s.strip()\<close>\<close>

definition strip :: "string \<Rightarrow> string" where
  "strip s = rstrip (lstrip s)"

text \<open>\<open>s.rstrip(chars)\<close>: every trailing character that occurs in \<open>chars\<close> is removed.\<close>

definition rstrip_chars :: "string \<Rightarrow> string \<Rightarrow> string" where
  "rstrip_chars chars s = rev (dropWhile (\<lambda>c. c \<in> set chars) (rev s))"

text \<open>\<open>s.startswith(p)\<close>\<close>

definition startswith :: "string \<Rightarrow> string \<Rightarrow> bool" where
  "startswith s p = prefix p s"

text \<open>
  \<open>s.partition(sep)\<close> for a separator of one character: the text before the first
  occurrence, the separator, the text after it; without an occurrence the whole string and
  two empty strings.
\<close>

definition partition1 :: "char \<Rightarrow> string \<Rightarrow> string \<times> string \<times> string" where
  "partition1 sep s =
     (case dropWhile (\<lambda>c. c \<noteq> sep) s of
        [] \<Rightarrow> (s, [], [])
      | _ # after \<Rightarrow> (takeWhile (\<lambda>c. c \<noteq> sep) s, [sep], after))"


text \<open>
  \<open>s.splitlines()\<close>: the line boundaries below code point 256 are \<open>\n\<close>, \<open>\r\<close>, \<open>\r\n\<close>,
  \<open>\v\<close>, \<open>\f\<close>, \<open>\x1c\<close>, \<open>\x1d\<close>, \<open>\x1e\<close> and \<open>\x85\<close>. A boundary ends a line; text
  after the last boundary is a line only when it is not empty.
\<close>

definition is_linebreak :: "char \<Rightarrow> bool" where
  "is_linebreak c = ((of_char c :: nat) \<in> {10, 11, 12, 13, 28, 29, 30, 133})"

fun splitlines_from :: "string \<Rightarrow> string \<Rightarrow> string list" where
  "splitlines_from cur [] = (if cur = [] then [] else [rev cur])"
| "splitlines_from cur (c # cs) =
     (if is_linebreak c then
        (case cs of
           d # ds \<Rightarrow>
             if of_char c = (13 :: nat) \<and> of_char d = (10 :: nat)
             then rev cur # splitlines_from [] ds
             else rev cur # splitlines_from [] cs
         | [] \<Rightarrow> rev cur # splitlines_from [] cs)
      else splitlines_from (c # cur) cs)"

definition splitlines :: "string \<Rightarrow> string list" where
  "splitlines s = splitlines_from [] s"

subsection \<open>Dictionary operations\<close>

text \<open>\<open>d.get(k)\<close>: \<open>None\<close> for a missing key, else the stored value.\<close>

definition dict_get :: "('k \<times> 'v) list \<Rightarrow> 'k \<Rightarrow> 'v option" where
  "dict_get d k = map_of d k"

text \<open>\<open>d[k] = v\<close>: an existing key keeps its position, a new key goes last.\<close>

fun dict_set :: "'k \<Rightarrow> 'v \<Rightarrow> ('k \<times> 'v) list \<Rightarrow> ('k \<times> 'v) list" where
  "dict_set k v [] = [(k, v)]"
| "dict_set k v ((k', v') # d) =
     (if k = k' then (k', v) # d else (k', v') # dict_set k v d)"

text \<open>\<open>d.keys()\<close>\<close>

definition keys :: "('k \<times> 'v) list \<Rightarrow> 'k list" where
  "keys d = map fst d"

text \<open>\<open>d.setdefault(k, []).append(v)\<close>\<close>

fun setdefault_append :: "'k \<Rightarrow> 'v \<Rightarrow> ('k \<times> 'v list) list \<Rightarrow> ('k \<times> 'v list) list" where
  "setdefault_append k v [] = [(k, [v])]"
| "setdefault_append k v ((k', vs) # d) =
     (if k = k' then (k', vs @ [v]) # d else (k', vs) # setdefault_append k v d)"

section \<open>filter\_by\_date\<close>

text \<open>
  \<open>strptime s fmt\<close> is \<open>datetime.datetime.strptime(s, fmt).date()\<close>, a parameter:
  \<open>Inl e\<close> when the library raises \<open>e\<close>. It raises \<open>ValueError\<close> when \<open>s\<close> does not
  match \<open>fmt\<close>; it can raise other exceptions, such as \<open>re.error\<close> for a format that
  repeats a directive. \<open>today\<close> is \<open>datetime.date.today()\<close>. A date object is always
  true, so the default applies exactly when no threshold is passed.

  The loop body returns the diagnostic it prints, if any, and whether the item is appended.
  Its handler catches \<open>ValueError\<close> and \<open>KeyError\<close>; any other exception leaves the
  loop and the function (\<open>Inl\<close>).
\<close>

definition filter_item ::
  "(string \<Rightarrow> string \<Rightarrow> exn + date) \<Rightarrow> string \<Rightarrow> string \<Rightarrow> date \<Rightarrow> item
     \<Rightarrow> exn + diag list \<times> bool" where
  "filter_item strptime date_key date_format date_threshold item =
     (case dict_get item date_key of
        None \<Rightarrow> Inr ([MissingDate item], False)
      | Some None \<Rightarrow> Inr ([MissingDate item], False)
      | Some (Some s) \<Rightarrow>
          if s = [] then Inr ([MissingDate item], False)
          else (case strptime s date_format of
                  Inl e \<Rightarrow>
                    if e = ValueError \<or> e = KeyError
                    then Inr ([ErrorProcessingDate item e], False)
                    else Inl e
                | Inr item_date \<Rightarrow> Inr ([], item_date \<ge> date_threshold)))"

fun filter_loop ::
  "(string \<Rightarrow> string \<Rightarrow> exn + date) \<Rightarrow> string \<Rightarrow> string \<Rightarrow> date \<Rightarrow> item list
     \<Rightarrow> exn + diag list \<times> item list" where
  "filter_loop strptime date_key date_format date_threshold [] = Inr ([], [])"
| "filter_loop strptime date_key date_format date_threshold (item # data) =
     (case filter_item strptime date_key date_format date_threshold item of
        Inl e \<Rightarrow> Inl e
      | Inr (printed, keep) \<Rightarrow>
          (case filter_loop strptime date_key date_format date_threshold data of
             Inl e \<Rightarrow> Inl e
           | Inr (printed', filtered_data) \<Rightarrow>
               Inr (printed @ printed',
                    if keep then item # filtered_data else filtered_data)))"

definition filter_by_date ::
  "(string \<Rightarrow> string \<Rightarrow> exn + date) \<Rightarrow> date \<Rightarrow> item list \<Rightarrow> string \<Rightarrow> string
     \<Rightarrow> date option \<Rightarrow> exn + diag list \<times> item list" where
  "filter_by_date strptime today data date_key date_format date_threshold =
     filter_loop strptime date_key date_format
       (case date_threshold of None \<Rightarrow> today | Some t \<Rightarrow> t) data"

section \<open>Fetching\<close>

text \<open>
  \<open>fetch url\<close> is \<open>requests.get(url)\<close>, a parameter of every operation that uses the
  network: \<open>Inl e\<close> when the call raises \<open>e\<close>, \<open>Inr response\<close> otherwise.
  \<open>Response.raise_for_status\<close> raises \<open>HTTPError\<close> for the status codes 400 to 599.
\<close>

definition raise_for_status :: "response \<Rightarrow> exn + unit" where
  "raise_for_status response =
     (if 400 \<le> status_code response \<and> status_code response < 600
      then Inl (HTTPError (status_code response)) else Inr ())"




section \<open>scrape\_website\<close>

text \<open>
  The HTML library is a parameter: \<open>parse\<close> is \<open>BeautifulSoup(text, 'html.parser')\<close>,
  \<open>select_one soup selector\<close> is \<open>soup.select_one(selector)\<close> (\<open>Inl e\<close> when the
  selector engine raises, \<open>Inr None\<close> when no element matches) and \<open>text_of\<close> is the
  \<open>text\<close> attribute of an element. An element is always true, so the conditional
  expression of the source tests for \<open>None\<close> only.
\<close>

fun extract_loop ::
  "('doc \<Rightarrow> string \<Rightarrow> exn + 'el option) \<Rightarrow> ('el \<Rightarrow> string) \<Rightarrow> 'doc \<Rightarrow> item
     \<Rightarrow> (string \<times> string) list \<Rightarrow> exn + item" where
  "extract_loop select_one text_of soup extracted_data [] = Inr extracted_data"
| "extract_loop select_one text_of soup extracted_data ((key, selector) # rest) =
     (case select_one soup selector of
        Inl e \<Rightarrow> Inl e
      | Inr element \<Rightarrow>
          extract_loop select_one text_of soup
            (dict_set key
               (case element of Some el \<Rightarrow> Some (strip (text_of el)) | None \<Rightarrow> None)
               extracted_data)
            rest)"

text \<open>The two handlers of \<open>scrape_website\<close>, in the order of the source.\<close>

definition scrape_handler :: "exn \<Rightarrow> diag list \<times> item" where
  "scrape_handler e =
     (if is_RequestException e then ([ErrorFetchingURL e], [])
      else ([AnErrorOccurred e], []))"

definition scrape_website ::
  "(string \<Rightarrow> exn + response) \<Rightarrow> (string \<Rightarrow> 'doc)
     \<Rightarrow> ('doc \<Rightarrow> string \<Rightarrow> exn + 'el option) \<Rightarrow> ('el \<Rightarrow> string)
     \<Rightarrow> string \<Rightarrow> (string \<times> string) list \<Rightarrow> diag list \<times> item" where
  "scrape_website fetch parse select_one text_of url target_elements =
     (case fetch url of
        Inl e \<Rightarrow> scrape_handler e
      | Inr response \<Rightarrow>
          (case raise_for_status response of
             Inl e \<Rightarrow> scrape_handler e
           | Inr _ \<Rightarrow>
               (case extract_loop select_one text_of (parse (resp_text response)) [] target_elements of
                  Inl e \<Rightarrow> scrape_handler e
                | Inr extracted_data \<Rightarrow> ([], extracted_data))))"

section \<open>extract\_keywords\<close>


section \<open>check\_robots\_txt\<close>

definition robots_url :: "string \<Rightarrow> string" where
  "robots_url url = rstrip_chars ''/'' url @ ''/robots.txt''"

definition recognized :: "string \<Rightarrow> bool" where
  "recognized line =
     (startswith line ''User-agent'' \<or> startswith line ''Disallow'' \<or> startswith line ''Allow'')"

text \<open>The loop over the lines of the body, \<open>rules\<close> being the dictionary built so far.\<close>

fun robots_loop :: "policy \<Rightarrow> string list \<Rightarrow> policy" where
  "robots_loop rules [] = rules"
| "robots_loop rules (l # ls) =
     (let line = strip l
      in if recognized line then
           (case partition1 CHR '':'' line of
              (key, _, val) \<Rightarrow> robots_loop (setdefault_append (strip key) (strip val) rules) ls)
         else robots_loop rules ls)"

definition check_robots_txt ::
  "(string \<Rightarrow> exn + response) \<Rightarrow> string \<Rightarrow> exn + diag list \<times> policy" where
  "check_robots_txt fetch url =
     (case fetch (robots_url url) of
        Inl e \<Rightarrow>
          if is_RequestException e then Inr ([ErrorFetchingRobots e], []) else Inl e
      | Inr response \<Rightarrow>
          if status_code response = 200
          then Inr ([], robots_loop [] (splitlines (resp_text response)))
          else Inr ([RobotsNotFound (robots_url url)], []))"

section \<open>detect\_web\_technologies\<close>


section \<open>save\_to\_csv\<close>

text \<open>
  The writer of the \<open>csv\<close> module in its default dialect: fields separated by a comma,
  a field quoted when it contains a comma, a double quote, \<open>\r\<close> or \<open>\n\<close>, a double
  quote inside it doubled, each row ended by \<open>\r\n\<close>, \<open>None\<close> written as the empty
  string. A row that consists of one empty field is written as a pair of double quotes.
\<close>

definition join :: "string \<Rightarrow> string list \<Rightarrow> string" where
  "join sep xs = (case xs of [] \<Rightarrow> [] | x # rest \<Rightarrow> x @ concat (map (\<lambda>y. sep @ y) rest))"

definition needs_quote :: "string \<Rightarrow> bool" where
  "needs_quote field = (\<exists>c \<in> set field. c \<in> {CHR '','', CHR 0x22, CHR 0x0D, CHR 0x0A})"

definition quote_field :: "string \<Rightarrow> string" where
  "quote_field field =
     (if needs_quote field
      then [CHR 0x22] @ concat (map (\<lambda>c. if c = CHR 0x22 then [c, c] else [c]) field) @ [CHR 0x22]
      else field)"

definition cell :: "string option \<Rightarrow> string" where
  "cell v = (case v of None \<Rightarrow> [] | Some s \<Rightarrow> s)"

definition writerow :: "string option list \<Rightarrow> string" where
  "writerow row =
     (if map cell row = [[]] then [CHR 0x22, CHR 0x22]
      else join '','' (map (quote_field \<circ> cell) row))
     @ [CHR 0x0D, CHR 0x0A]"

text \<open>
  \<open>DictWriter\<close> with the defaults \<open>restval=""\<close> and \<open>extrasaction="raise"\<close>: a row
  dictionary with a key outside \<open>fieldnames\<close> raises \<open>ValueError\<close>, a missing key gives
  \<open>restval\<close>. \<open>writerows\<close> converts and writes the rows one after the other, so the rows
  before a raising one are written; it returns the exception, if any, and the text written.
\<close>

definition wrong_fields :: "string list \<Rightarrow> item \<Rightarrow> bool" where
  "wrong_fields fieldnames rowdict = (\<exists>k \<in> set (keys rowdict). k \<notin> set fieldnames)"

definition dict_to_list :: "string list \<Rightarrow> item \<Rightarrow> string option list" where
  "dict_to_list fieldnames rowdict =
     map (\<lambda>key. case dict_get rowdict key of None \<Rightarrow> Some [] | Some v \<Rightarrow> v) fieldnames"

definition writeheader :: "string list \<Rightarrow> string" where
  "writeheader fieldnames = writerow (map Some fieldnames)"

fun writerows :: "string list \<Rightarrow> item list \<Rightarrow> exn option \<times> string" where
  "writerows fieldnames [] = (None, [])"
| "writerows fieldnames (rowdict # rowdicts) =
     (if wrong_fields fieldnames rowdict then (Some ValueError, [])
      else (case writerows fieldnames rowdicts of
              (e, written) \<Rightarrow> (e, writerow (dict_to_list fieldnames rowdict) @ written)))"

text \<open>
  The file system maps a file name to the text of the file. \<open>can_open filename\<close> tells
  whether \<open>open(filename, "w")\<close> succeeds; it raises \<open>OSError\<close> otherwise. The
  \<open>with\<close> statement closes the file on every exit, so the text written before an exception
  is in the file. The result is the exception that leaves the function, if any, the file
  system afterwards and the lines printed.
\<close>

type_synonym fs = "string \<rightharpoonup> string"

definition save_to_csv ::
  "(string \<Rightarrow> bool) \<Rightarrow> fs \<Rightarrow> item list \<Rightarrow> string \<Rightarrow> exn option \<times> fs \<times> diag list" where
  "save_to_csv can_open files data filename =
     (case data of
        [] \<Rightarrow> (None, files, [NoDataToSave])
      | first # _ \<Rightarrow>
          if \<not> can_open filename then (Some OSError, files, [])
          else (case writerows (keys first) data of
                  (Some e, written) \<Rightarrow>
                    (Some e, files(filename \<mapsto> writeheader (keys first) @ written), [])
                | (None, written) \<Rightarrow>
                    (None, files(filename \<mapsto> writeheader (keys first) @ written),
                     [DataSaved filename])))"

section \<open>The properties, in the words of the specification\<close>

subsection \<open>Date filter\<close>

text \<open>
  The usable date value of a record: its date field is present and its value is neither
  absent nor empty. The parsed date of a record is its usable date value parsed under the
  format, when the parser returns a date.
\<close>

definition usable_date :: "item \<Rightarrow> string \<Rightarrow> string option" where
  "usable_date item date_key =
     (case map_of item date_key of
        Some (Some s) \<Rightarrow> if s = [] then None else Some s
      | _ \<Rightarrow> None)"

definition parsed_date ::
  "(string \<Rightarrow> string \<Rightarrow> exn + date) \<Rightarrow> string \<Rightarrow> string \<Rightarrow> item \<Rightarrow> date option" where
  "parsed_date strptime date_key date_format item =
     (case usable_date item date_key of
        None \<Rightarrow> None
      | Some s \<Rightarrow> (case strptime s date_format of Inl _ \<Rightarrow> None | Inr d \<Rightarrow> Some d))"

text \<open>A record is kept iff its parsed date is on or after the threshold.\<close>

definition on_or_after ::
  "(string \<Rightarrow> string \<Rightarrow> exn + date) \<Rightarrow> string \<Rightarrow> string \<Rightarrow> date \<Rightarrow> item \<Rightarrow> bool" where
  "on_or_after strptime date_key date_format threshold item =
     (case parsed_date strptime date_key date_format item of
        None \<Rightarrow> False
      | Some d \<Rightarrow> threshold \<le> d)"

text \<open>
  The parser fails on the date value of a record only by the exceptions the filter
  handles: on the usable date value it returns a date or raises \<open>ValueError\<close> or
  \<open>KeyError\<close>.
\<close>

definition parse_failure_handled ::
  "(string \<Rightarrow> string \<Rightarrow> exn + date) \<Rightarrow> string \<Rightarrow> string \<Rightarrow> item \<Rightarrow> bool" where
  "parse_failure_handled strptime date_key date_format item =
     (case usable_date item date_key of
        None \<Rightarrow> True
      | Some s \<Rightarrow>
          (case strptime s date_format of
             Inl e \<Rightarrow> e = ValueError \<or> e = KeyError
           | Inr _ \<Rightarrow> True))"

text \<open>
  A finite table of results of the date parser, for evaluation on concrete records: three
  dates under the format \<open>%Y-%m-%d\<close>, \<open>re.error\<close> for the format \<open>%d %d\<close>, which
  repeats a directive, and \<open>ValueError\<close> for everything else.
\<close>

definition strptime_table :: "string \<Rightarrow> string \<Rightarrow> exn + date" where
  "strptime_table s fmt =
     (if fmt = ''%Y-%m-%d''
      then (case map_of [(''2023-12-31'', (2023, 12, 31)), (''2024-01-15'', (2024, 1, 15)),
                         (''2024-03-01'', (2024, 3, 1))] s of
              None \<Rightarrow> Inl ValueError
            | Some d \<Rightarrow> Inr d)
      else if fmt = ''%d %d'' then Inl ReError
      else Inl ValueError)"

subsection \<open>Selector extractor\<close>

text \<open>
  The value of a field: the stripped text of the first element matching the selector, or
  absent when no element matches.
\<close>

definition first_match_text ::
  "('doc \<Rightarrow> string \<Rightarrow> exn + 'el option) \<Rightarrow> ('el \<Rightarrow> string) \<Rightarrow> 'doc \<Rightarrow> string
     \<Rightarrow> string option" where
  "first_match_text select_one text_of soup selector =
     (case select_one soup selector of
        Inr (Some el) \<Rightarrow> Some (strip (text_of el))
      | _ \<Rightarrow> None)"

text \<open>The selector engine accepts a selector on a document when the lookup returns.\<close>

definition accepts :: "('doc \<Rightarrow> string \<Rightarrow> exn + 'el option) \<Rightarrow> 'doc \<Rightarrow> string \<Rightarrow> bool" where
  "accepts select_one soup selector = (case select_one soup selector of Inl _ \<Rightarrow> False | Inr _ \<Rightarrow> True)"

text \<open>
  A small document model for evaluation: the document is a list of (selector, text); the
  empty selector is one the selector engine raises on.
\<close>

definition select_in_table :: "(string \<times> string) list \<Rightarrow> string \<Rightarrow> exn + string option" where
  "select_in_table soup selector =
     (if selector = [] then Inl OtherException else Inr (map_of soup selector))"

subsection \<open>Robots policy\<close>

text \<open>Stripping exactly one trailing slash, as the specification words it.\<close>

definition strip_one_trailing_slash :: "string \<Rightarrow> string" where
  "strip_one_trailing_slash url =
     (if url \<noteq> [] \<and> last url = CHR ''/'' then butlast url else url)"

definition spec_robots_url :: "string \<Rightarrow> string" where
  "spec_robots_url url = strip_one_trailing_slash url @ ''/robots.txt''"

text \<open>The three recognized directives.\<close>

definition directives :: "string list" where
  "directives = [''User-agent'', ''Disallow'', ''Allow'']"

text \<open>
  The directive and the value of a line: the trimmed texts before and after the first
  colon of the trimmed line.
\<close>

definition directive_key :: "string \<Rightarrow> string" where
  "directive_key l = strip (fst (partition1 CHR '':'' (strip l)))"

definition directive_value :: "string \<Rightarrow> string" where
  "directive_value l = strip (snd (snd (partition1 CHR '':'' (strip l))))"

text \<open>The values of the recognized lines for one directive, in appearance order.\<close>

definition directive_values :: "string list \<Rightarrow> string \<Rightarrow> string list" where
  "directive_values ls k =
     map directive_value (filter (\<lambda>l. recognized (strip l) \<and> directive_key l = k) ls)"

text \<open>A comment or a blank line: trimmed, it is empty or starts with \<open>#\<close>.\<close>

definition comment_or_blank :: "string \<Rightarrow> bool" where
  "comment_or_blank l = (strip l = [] \<or> startswith (strip l) ''#'')"

text \<open>A fetch that answers every URL with the same response.\<close>

definition always :: "response \<Rightarrow> string \<Rightarrow> exn + response" where
  "always response url = Inr response"

text \<open>A fetch that fails for every URL.\<close>

definition failing :: "exn \<Rightarrow> string \<Rightarrow> exn + response" where
  "failing e url = Inl e"

definition ok_page :: "string \<Rightarrow> response" where
  "ok_page body = \<lparr>status_code = 200, resp_text = body, headers = []\<rparr>"

definition error_page :: response where
  "error_page = \<lparr>status_code = 500, resp_text = [], headers = [(''Server'', ''nginx'')]\<rparr>"

subsection \<open>Tabular exporter\<close>

text \<open>
  The text of a file with a header row equal to the first record's key sequence and one
  row per record in that column order, a missing field being an empty cell.
\<close>

definition csv_text :: "item list \<Rightarrow> string" where
  "csv_text data =
     (let columns = keys (hd data)
      in writerow (map Some columns)
         @ concat (map (\<lambda>r. writerow (map (\<lambda>k. case map_of r k of None \<Rightarrow> Some [] | Some v \<Rightarrow> v)
                                          columns)) data))"

text \<open>A record has an extra key when one of its keys is not a key of the first record.\<close>

definition extra_key :: "item \<Rightarrow> item \<Rightarrow> bool" where
  "extra_key first r = (\<not> set (keys r) \<subseteq> set (keys first))"

definition crlf :: string where
  "crlf = [CHR 0x0D, CHR 0x0A]"

definition writable :: "string \<Rightarrow> bool" where
  "writable filename = True"

definition no_files :: fs where
  "no_files = Map.empty"

subsection \<open>Small environments for evaluation\<close>

text \<open>
  A parser that yields the same two-element document for every body, a lookup of the
  keywords element in such a document, and the attribute lookup of that element.
\<close>

definition parse_table :: "string \<Rightarrow> (string \<times> string) list" where
  "parse_table body = [(''title'', ''  Home ''), (''meta[name=keywords]'', ''a, b ,c'')]"



text \<open>A fetch that answers one URL only and fails with a connection error elsewhere.\<close>

definition answering :: "string \<Rightarrow> response \<Rightarrow> string \<Rightarrow> exn + response" where
  "answering at response url = (if url = at then Inr response else Inl RequestException)"

section \<open>Basic facts about the dictionary and string operations\<close>

lemma keys_simps:
  "keys [] = []" "keys ((k, v) # d) = k # keys d" "keys (d @ d') = keys d @ keys d'"
  by (simp_all add: keys_def)

lemma keys_eq_Nil: "keys d = [] \<longleftrightarrow> d = []"
  by (simp add: keys_def)

lemma keys_dict_set: "set (keys (dict_set k v d)) = insert k (set (keys d))"
  by (induction k v d rule: dict_set.induct) (auto simp: keys_simps)

lemma dict_set_fresh: "k \<notin> set (keys d) \<Longrightarrow> dict_set k v d = d @ [(k, v)]"
  by (induction k v d rule: dict_set.induct) (auto simp: keys_simps)

lemma keys_setdefault_append:
  "set (keys (setdefault_append k v d)) = insert k (set (keys d))"
  by (induction k v d rule: setdefault_append.induct) (auto simp: keys_simps)

lemma map_of_setdefault_append:
  "map_of (setdefault_append k v d) k' =
     (if k' = k then Some ((case map_of d k of None \<Rightarrow> [] | Some vs \<Rightarrow> vs) @ [v])
      else map_of d k')"
  by (induction k v d rule: setdefault_append.induct) auto

lemma partition1_fst: "fst (partition1 sep s) = takeWhile (\<lambda>c. c \<noteq> sep) s"
proof (cases "dropWhile (\<lambda>c. c \<noteq> sep) s")
  case Nil
  then have "\<forall>c \<in> set s. c \<noteq> sep" by simp
  then have "takeWhile (\<lambda>c. c \<noteq> sep) s = s" by (simp add: takeWhile_eq_all_conv)
  with Nil show ?thesis unfolding partition1_def by (simp only: list.case fst_conv)
next
  case (Cons a list)
  then show ?thesis unfolding partition1_def by (simp only: list.case fst_conv)
qed

lemma prefix_takeWhile:
  "prefix p s \<Longrightarrow> \<forall>c \<in> set p. P c \<Longrightarrow> prefix p (takeWhile P s)"
  by (auto simp: prefix_def)

lemma prefix_lstrip:
  "prefix p s \<Longrightarrow> p \<noteq> [] \<Longrightarrow> \<not> py_isspace (hd p) \<Longrightarrow> lstrip s = s"
  by (cases p) (auto simp: prefix_def lstrip_def)

lemma prefix_rstrip:
  assumes "prefix p s" "p \<noteq> []" "\<not> py_isspace (last p)"
  shows "prefix p (rstrip s)"
proof -
  from assms(1) obtain r where s: "s = p @ r" by (auto simp: prefix_def)
  from assms(2,3) have keep: "dropWhile py_isspace (rev p) = rev p"
    by (cases p rule: rev_cases) auto
  show ?thesis
  proof (cases "\<forall>c \<in> set (rev r). py_isspace c")
    case True
    then have "dropWhile py_isspace (rev r @ rev p) = dropWhile py_isspace (rev p)"
      by (intro dropWhile_append2) blast
    then have "dropWhile py_isspace (rev r @ rev p) = rev p"
      by (simp only: keep)
    then show ?thesis by (simp add: rstrip_def s)
  next
    case False
    then obtain c where "c \<in> set (rev r)" "\<not> py_isspace c" by blast
    then have "dropWhile py_isspace (rev r @ rev p) = dropWhile py_isspace (rev r) @ rev p"
      by (rule dropWhile_append1)
    then show ?thesis by (simp add: rstrip_def s)
  qed
qed

lemma prefix_strip:
  assumes "prefix p s" "p \<noteq> []" "\<not> py_isspace (hd p)" "\<not> py_isspace (last p)"
  shows "prefix p (strip s)"
  unfolding strip_def prefix_lstrip [OF assms(1-3)]
  by (rule prefix_rstrip [OF assms(1,2,4)])

lemma rstrip_chars_replicate:
  assumes "base = [] \<or> last base \<noteq> c"
  shows "rstrip_chars [c] (base @ replicate n c) = base"
proof -
  have "dropWhile (\<lambda>x. x = c) (replicate n c @ rev base) = dropWhile (\<lambda>x. x = c) (rev base)"
    by (induction n) simp_all
  also have "\<dots> = rev base"
    using assms by (cases base rule: rev_cases) auto
  finally show ?thesis
    by (simp add: rstrip_chars_def)
qed

section \<open>Properties of filter\_by\_date\<close>

lemma filter_item_keep:
  "filter_item strptime k f t item = Inr (printed, keep)
     \<Longrightarrow> keep = on_or_after strptime k f t item"
  by (auto simp: filter_item_def on_or_after_def parsed_date_def usable_date_def dict_get_def
      split: option.splits if_splits sum.splits)

lemma filter_item_returns:
  "parse_failure_handled strptime k f item
     \<Longrightarrow> \<exists>printed. filter_item strptime k f t item
           = Inr (printed, on_or_after strptime k f t item)"
  by (auto simp: filter_item_def parse_failure_handled_def on_or_after_def parsed_date_def
      usable_date_def dict_get_def split: option.splits if_splits sum.splits)

lemma filter_item_quiet:
  "parsed_date strptime k f item = Some d
     \<Longrightarrow> filter_item strptime k f t item = Inr ([], t \<le> d)"
  by (auto simp: filter_item_def parsed_date_def usable_date_def dict_get_def
      split: option.splits if_splits sum.splits)

lemma filter_loop_out:
  "filter_loop strptime k f t data = Inr (printed, out)
     \<Longrightarrow> out = filter (on_or_after strptime k f t) data"
proof (induction data arbitrary: printed out)
  case Nil
  then show ?case by simp
next
  case (Cons item data)
  from Cons.prems obtain p keep p' out' where
    item: "filter_item strptime k f t item = Inr (p, keep)"
    and rest: "filter_loop strptime k f t data = Inr (p', out')"
    and out: "out = (if keep then item # out' else out')"
    by (auto split: sum.splits prod.splits)
  from Cons.IH [OF rest] filter_item_keep [OF item] out show ?case
    by simp
qed

lemma filter_loop_returns:
  "\<forall>item \<in> set data. parse_failure_handled strptime k f item
     \<Longrightarrow> \<exists>printed. filter_loop strptime k f t data
           = Inr (printed, filter (on_or_after strptime k f t) data)"
proof (induction data)
  case Nil
  then show ?case by simp
next
  case (Cons item data)
  then obtain p' where
    rest: "filter_loop strptime k f t data = Inr (p', filter (on_or_after strptime k f t) data)"
    by auto
  from Cons.prems obtain p where
    item: "filter_item strptime k f t item = Inr (p, on_or_after strptime k f t item)"
    using filter_item_returns [of strptime k f item t] by auto
  show ?case by (simp add: item rest)
qed

lemma filter_loop_quiet:
  "\<forall>item \<in> set data. \<exists>d. parsed_date strptime k f item = Some d
     \<Longrightarrow> filter_loop strptime k f t data = Inr ([], filter (on_or_after strptime k f t) data)"
proof (induction data)
  case Nil
  then show ?case by simp
next
  case (Cons item data)
  then have rest: "filter_loop strptime k f t data
      = Inr ([], filter (on_or_after strptime k f t) data)"
    by simp
  from Cons.prems obtain d where d: "parsed_date strptime k f item = Some d"
    by auto
  have keep: "on_or_after strptime k f t item = (t \<le> d)"
    by (simp add: on_or_after_def d)
  show ?case
    by (simp add: filter_item_quiet [OF d] rest keep)
qed

text \<open>
  C1, as the code has it. For every list of records, date key, date format and threshold
  date: when the date parser fails on the date values of the records only by the exceptions
  the filter handles (\<open>ValueError\<close>, \<open>KeyError\<close>), \<open>filter_by_date\<close> returns, and its
  output is the input filtered by the predicate "the parsed date is on or after the
  threshold". Whenever it returns, the output is an order-preserving subsequence of the
  input; a record of the input is in the output iff its date field is present, not empty,
  parses under the format, and the parsed date is on or after the threshold; a record that
  is dropped has no usable date value, or does not parse, or has a parsed date strictly
  before the threshold.
\<close>

theorem filter_by_date_keeps_on_or_after:
  "((\<forall>item \<in> set data. parse_failure_handled strptime date_key date_format item)
      \<longrightarrow> (\<exists>printed. filter_by_date strptime today data date_key date_format (Some threshold)
             = Inr (printed, filter (on_or_after strptime date_key date_format threshold) data)))
   \<and> (filter_by_date strptime today data date_key date_format (Some threshold)
         = Inr (printed, out)
      \<longrightarrow> subseq out data
        \<and> out = filter (on_or_after strptime date_key date_format threshold) data
        \<and> (\<forall>item \<in> set data. item \<in> set out \<longleftrightarrow>
              (\<exists>s d. map_of item date_key = Some (Some s) \<and> s \<noteq> []
                 \<and> strptime s date_format = Inr d \<and> threshold \<le> d))
        \<and> (\<forall>item \<in> set data. item \<notin> set out \<longrightarrow>
              usable_date item date_key = None
              \<or> (\<exists>s e. usable_date item date_key = Some s \<and> strptime s date_format = Inl e)
              \<or> (\<exists>d. parsed_date strptime date_key date_format item = Some d
                     \<and> d < threshold)))"
proof (intro conjI impI)
  assume "\<forall>item \<in> set data. parse_failure_handled strptime date_key date_format item"
  then show "\<exists>printed. filter_by_date strptime today data date_key date_format (Some threshold)
             = Inr (printed, filter (on_or_after strptime date_key date_format threshold) data)"
    unfolding filter_by_date_def option.case by (rule filter_loop_returns)
next
  assume returned: "filter_by_date strptime today data date_key date_format (Some threshold)
         = Inr (printed, out)"
  then have eq: "out = filter (on_or_after strptime date_key date_format threshold) data"
    unfolding filter_by_date_def option.case by (rule filter_loop_out)
  show "out = filter (on_or_after strptime date_key date_format threshold) data"
    by (rule eq)
  show "subseq out data"
    unfolding eq by (rule subseq_filter_left)
  show "\<forall>item \<in> set data. item \<in> set out \<longleftrightarrow>
          (\<exists>s d. map_of item date_key = Some (Some s) \<and> s \<noteq> []
             \<and> strptime s date_format = Inr d \<and> threshold \<le> d)"
    unfolding eq
    by (auto simp: on_or_after_def parsed_date_def usable_date_def
        split: option.splits if_splits sum.splits)
  show "\<forall>item \<in> set data. item \<notin> set out \<longrightarrow>
          usable_date item date_key = None
          \<or> (\<exists>s e. usable_date item date_key = Some s \<and> strptime s date_format = Inl e)
          \<or> (\<exists>d. parsed_date strptime date_key date_format item = Some d \<and> d < threshold)"
    unfolding eq
    by (auto simp: on_or_after_def parsed_date_def split: option.splits sum.splits)
qed

theorem filter_by_date_keeps_on_or_after_witness:
  "filter_by_date strptime_table (2024, 2, 1)
          [[(''date'', Some ''2024-01-15''), (''t'', Some ''a'')], [(''date'', Some ''2023-12-31'')],
           [(''date'', Some ''2024-03-01'')], [(''date'', None)], [(''t'', Some ''x'')],
           [(''date'', Some ''soon'')], [(''date'', Some [])]]
          ''date'' ''%Y-%m-%d'' (Some (2024, 1, 15))
     = Inr ([MissingDate [(''date'', None)], MissingDate [(''t'', Some ''x'')],
             ErrorProcessingDate [(''date'', Some ''soon'')] ValueError,
             MissingDate [(''date'', Some [])]],
            [[(''date'', Some ''2024-01-15''), (''t'', Some ''a'')],
             [(''date'', Some ''2024-03-01'')]])
   \<and> parse_failure_handled strptime_table ''date'' ''%Y-%m-%d'' [(''date'', Some ''soon'')]
   \<and> parsed_date strptime_table ''date'' ''%Y-%m-%d'' [(''date'', Some ''2023-12-31'')]
       = Some (2023, 12, 31)
   \<and> usable_date [(''t'', Some ''x'')] ''date'' = None"
  using filter_by_date_keeps_on_or_after [where strptime = strptime_table
      and today = "(2024, 2, 1)"
      and data = "[[(''date'', Some ''2024-01-15''), (''t'', Some ''a'')],
        [(''date'', Some ''2023-12-31'')], [(''date'', Some ''2024-03-01'')], [(''date'', None)],
        [(''t'', Some ''x'')], [(''date'', Some ''soon'')], [(''date'', Some [])]]"
      and date_key = "''date''" and date_format = "''%Y-%m-%d''" and threshold = "(2024, 1, 15)"]
  by (simp add: filter_by_date_def filter_item_def dict_get_def on_or_after_def parsed_date_def
      usable_date_def parse_failure_handled_def strptime_table_def)

text \<open>
  The claim C1 as it is worded fails for a date format on which the parser raises an
  exception the filter does not handle: under the format \<open>%d %d\<close> the parser raises
  \<open>re.error\<close>, which leaves \<open>filter_by_date\<close>, so there is no output.
\<close>

theorem filter_by_date_format_counterexample:
  "filter_by_date strptime_table (2024, 2, 1) [[(''date'', Some ''01 01'')]]
     ''date'' ''%d %d'' (Some (2024, 1, 15)) = Inl ReError"
  by (simp add: filter_by_date_def filter_item_def dict_get_def strptime_table_def)

text \<open>
  C8. With a threshold strictly before the date of every record, \<open>filter_by_date\<close>
  returns the whole input unchanged, in the same order, and prints nothing; with a
  threshold strictly after the date of every record, it returns the empty list.
\<close>

theorem filter_by_date_threshold_extremes:
  "((\<forall>item \<in> set data. \<exists>d. parsed_date strptime date_key date_format item = Some d
        \<and> threshold < d)
      \<longrightarrow> filter_by_date strptime today data date_key date_format (Some threshold)
            = Inr ([], data))
   \<and> ((\<forall>item \<in> set data. \<exists>d. parsed_date strptime date_key date_format item = Some d
         \<and> d < threshold)
      \<longrightarrow> filter_by_date strptime today data date_key date_format (Some threshold)
            = Inr ([], []))"
proof (intro conjI impI)
  assume before: "\<forall>item \<in> set data. \<exists>d. parsed_date strptime date_key date_format item = Some d
        \<and> threshold < d"
  then have "filter (on_or_after strptime date_key date_format threshold) data = data"
    by (intro filter_True) (auto simp: on_or_after_def)
  moreover from before
  have "filter_loop strptime date_key date_format threshold data
      = Inr ([], filter (on_or_after strptime date_key date_format threshold) data)"
    by (intro filter_loop_quiet) blast
  ultimately show
    "filter_by_date strptime today data date_key date_format (Some threshold) = Inr ([], data)"
    by (simp add: filter_by_date_def)
next
  assume after: "\<forall>item \<in> set data. \<exists>d. parsed_date strptime date_key date_format item = Some d
         \<and> d < threshold"
  then have "filter (on_or_after strptime date_key date_format threshold) data = []"
    by (auto simp: filter_empty_conv on_or_after_def)
  moreover from after
  have "filter_loop strptime date_key date_format threshold data
      = Inr ([], filter (on_or_after strptime date_key date_format threshold) data)"
    by (intro filter_loop_quiet) blast
  ultimately show
    "filter_by_date strptime today data date_key date_format (Some threshold) = Inr ([], [])"
    by (simp add: filter_by_date_def)
qed

theorem filter_by_date_threshold_extremes_witness:
  "filter_by_date strptime_table (2024, 2, 1)
     [[(''date'', Some ''2024-01-15'')], [(''date'', Some ''2024-03-01'')]]
     ''date'' ''%Y-%m-%d'' (Some (2023, 12, 31))
     = Inr ([], [[(''date'', Some ''2024-01-15'')], [(''date'', Some ''2024-03-01'')]])
   \<and> filter_by_date strptime_table (2024, 2, 1)
     [[(''date'', Some ''2024-01-15'')], [(''date'', Some ''2023-12-31'')]]
     ''date'' ''%Y-%m-%d'' (Some (2024, 3, 1)) = Inr ([], [])"
  using filter_by_date_threshold_extremes
      [where data = "[[(''date'', Some ''2024-01-15'')], [(''date'', Some ''2024-03-01'')]]"
        and strptime = strptime_table and date_key = "''date''" and date_format = "''%Y-%m-%d''"
        and threshold = "(2023, 12, 31)" and today = "(2024, 2, 1)"]
    filter_by_date_threshold_extremes
      [where data = "[[(''date'', Some ''2024-01-15'')], [(''date'', Some ''2023-12-31'')]]"
        and strptime = strptime_table and date_key = "''date''" and date_format = "''%Y-%m-%d''"
        and threshold = "(2024, 3, 1)" and today = "(2024, 2, 1)"]
  by (simp add: parsed_date_def usable_date_def strptime_table_def)

section \<open>Properties of scrape\_website\<close>

lemma extract_loop_returns:
  "\<forall>(k, selector) \<in> set rules. accepts select_one soup selector
     \<Longrightarrow> \<exists>out. extract_loop select_one text_of soup acc rules = Inr out"
proof (induction rules arbitrary: acc)
  case Nil
  then show ?case by simp
next
  case (Cons rule rules)
  obtain key selector where rule: "rule = (key, selector)" by (cases rule)
  with Cons.prems obtain element where "select_one soup selector = Inr element"
    by (auto simp: accepts_def split: sum.splits)
  with Cons rule show ?case by simp
qed

lemma extract_loop_keys:
  "extract_loop select_one text_of soup acc rules = Inr out
     \<Longrightarrow> set (keys out) = set (keys acc) \<union> set (keys rules)"
proof (induction rules arbitrary: acc)
  case Nil
  then show ?case by (simp add: keys_simps)
next
  case (Cons rule rules)
  obtain key selector where rule: "rule = (key, selector)" by (cases rule)
  from Cons.prems rule obtain element where
    rest: "extract_loop select_one text_of soup
      (dict_set key (case element of Some el \<Rightarrow> Some (strip (text_of el)) | None \<Rightarrow> None) acc)
      rules = Inr out"
    by (auto split: sum.splits)
  from Cons.IH [OF rest] show ?case
    by (simp add: keys_dict_set rule keys_simps)
qed

lemma extract_loop_distinct:
  "extract_loop select_one text_of soup acc rules = Inr out
     \<Longrightarrow> distinct (keys acc @ keys rules)
     \<Longrightarrow> out = acc @ map (\<lambda>(k, selector).
                             (k, first_match_text select_one text_of soup selector)) rules"
proof (induction rules arbitrary: acc)
  case Nil
  then show ?case by simp
next
  case (Cons rule rules)
  obtain key selector where rule: "rule = (key, selector)" by (cases rule)
  from Cons.prems(1) rule obtain element where
    el: "select_one soup selector = Inr element"
    and rest: "extract_loop select_one text_of soup
      (dict_set key (case element of Some el \<Rightarrow> Some (strip (text_of el)) | None \<Rightarrow> None) acc)
      rules = Inr out"
    by (auto split: sum.splits)
  from Cons.prems(2) rule have fresh: "key \<notin> set (keys acc)"
    by (simp add: keys_simps)
  have val: "(case element of Some el \<Rightarrow> Some (strip (text_of el)) | None \<Rightarrow> None)
      = first_match_text select_one text_of soup selector"
    by (simp add: first_match_text_def el split: option.splits)
  from Cons.prems(2) rule
  have "distinct (keys (acc @ [(key, first_match_text select_one text_of soup selector)])
          @ keys rules)"
    by (simp add: keys_simps)
  with Cons.IH [of "acc @ [(key, first_match_text select_one text_of soup selector)]"] rest
  show ?case
    by (simp add: dict_set_fresh [OF fresh] val rule)
qed

lemma extract_loop_raises:
  "\<not> (\<forall>(k, selector) \<in> set rules. accepts select_one soup selector)
     \<Longrightarrow> \<exists>e. extract_loop select_one text_of soup acc rules = Inl e"
proof (induction rules arbitrary: acc)
  case Nil
  then show ?case by simp
next
  case (Cons rule rules)
  obtain key selector where rule: "rule = (key, selector)" by (cases rule)
  show ?case
  proof (cases "select_one soup selector")
    case (Inl e)
    then show ?thesis by (simp add: rule)
  next
    case (Inr element)
    then have "accepts select_one soup selector" by (simp add: accepts_def)
    with Cons.prems rule
    have "\<not> (\<forall>(k, selector) \<in> set rules. accepts select_one soup selector)"
      by simp
    from Cons.IH [OF this] Inr show ?thesis by (simp add: rule)
  qed
qed

text \<open>
  C2, as the code has it. For every fetched document (the fetch returns a response whose
  status \<open>raise_for_status\<close> lets pass) and every rule mapping whose selectors the
  selector engine accepts on it, \<open>scrape_website\<close> prints nothing and returns a record
  whose key set is exactly the key set of the rule mapping; the record has the keys of the
  mapping in the same order, each with the stripped text of the first matching element, or
  \<open>None\<close> when no element matches; the empty rule mapping yields the empty record. When
  the selector engine raises on a selector of the mapping, the handler returns the empty
  record and a diagnostic.
\<close>

theorem scrape_website_keys:
  assumes fetched: "fetch url = Inr response" "raise_for_status response = Inr ()"
  shows "((\<forall>(k, selector) \<in> set target_elements.
              accepts select_one (parse (resp_text response)) selector)
          \<longrightarrow> (\<exists>extracted_data.
      scrape_website fetch parse select_one text_of url target_elements = ([], extracted_data)
      \<and> set (keys extracted_data) = set (keys target_elements)
      \<and> (distinct (keys target_elements) \<longrightarrow>
           extracted_data
             = map (\<lambda>(k, selector).
                      (k, first_match_text select_one text_of (parse (resp_text response)) selector))
                 target_elements)
      \<and> (target_elements = [] \<longrightarrow> extracted_data = [])))
    \<and> (\<not> (\<forall>(k, selector) \<in> set target_elements.
              accepts select_one (parse (resp_text response)) selector)
          \<longrightarrow> snd (scrape_website fetch parse select_one text_of url target_elements) = []
            \<and> fst (scrape_website fetch parse select_one text_of url target_elements) \<noteq> [])"
proof (intro conjI impI)
  assume accepted: "\<forall>(k, selector) \<in> set target_elements.
                     accepts select_one (parse (resp_text response)) selector"
  from extract_loop_returns [OF accepted] obtain out where
    out: "extract_loop select_one text_of (parse (resp_text response)) [] target_elements = Inr out"
    by blast
  have "scrape_website fetch parse select_one text_of url target_elements = ([], out)"
    by (simp add: scrape_website_def fetched out)
  moreover from extract_loop_keys [OF out] have "set (keys out) = set (keys target_elements)"
    by (simp add: keys_simps)
  moreover have "distinct (keys target_elements) \<longrightarrow>
      out = map (\<lambda>(k, selector).
                   (k, first_match_text select_one text_of (parse (resp_text response)) selector))
              target_elements"
    using extract_loop_distinct [OF out] by (simp add: keys_simps)
  moreover have "target_elements = [] \<longrightarrow> out = []"
    using out by auto
  ultimately show "\<exists>extracted_data.
      scrape_website fetch parse select_one text_of url target_elements = ([], extracted_data)
      \<and> set (keys extracted_data) = set (keys target_elements)
      \<and> (distinct (keys target_elements) \<longrightarrow>
           extracted_data
             = map (\<lambda>(k, selector).
                      (k, first_match_text select_one text_of (parse (resp_text response)) selector))
                 target_elements)
      \<and> (target_elements = [] \<longrightarrow> extracted_data = [])"
    by blast
next
  assume "\<not> (\<forall>(k, selector) \<in> set target_elements.
              accepts select_one (parse (resp_text response)) selector)"
  from extract_loop_raises [OF this] obtain e where
    e: "extract_loop select_one text_of (parse (resp_text response)) [] target_elements = Inl e"
    by blast
  have run: "scrape_website fetch parse select_one text_of url target_elements = scrape_handler e"
    by (simp add: scrape_website_def fetched e)
  show "snd (scrape_website fetch parse select_one text_of url target_elements) = []"
    unfolding run by (simp add: scrape_handler_def)
  show "fst (scrape_website fetch parse select_one text_of url target_elements) \<noteq> []"
    unfolding run by (simp add: scrape_handler_def)
qed

theorem scrape_website_keys_witness:
  "scrape_website (always (ok_page ''<html>'')) parse_table select_in_table id ''http://a.b/''
     [(''title'', ''title''), (''date'', ''time'')]
   = ([], [(''title'', Some ''Home''), (''date'', None)])
   \<and> raise_for_status (ok_page ''<html>'') = Inr ()
   \<and> accepts select_in_table (parse_table ''<html>'') ''title''
   \<and> accepts select_in_table (parse_table ''<html>'') ''time''"
  using scrape_website_keys [where fetch = "always (ok_page ''<html>'')" and url = "''http://a.b/''"
      and response = "ok_page ''<html>''"
      and target_elements = "[(''title'', ''title''), (''date'', ''time'')]"
      and select_one = select_in_table and parse = parse_table and text_of = id]
  by (simp add: always_def ok_page_def raise_for_status_def accepts_def select_in_table_def
      parse_table_def first_match_text_def keys_simps strip_def lstrip_def rstrip_def
      py_isspace_def)

text \<open>
  The claim C2 as it is worded fails for a rule mapping with a selector on which the
  selector engine raises, such as the empty selector: the document is fetched, and the
  record is empty where the rule mapping has two keys.
\<close>

theorem scrape_website_selector_counterexample:
  "scrape_website (always (ok_page ''<html>'')) parse_table select_in_table id ''http://a.b/''
     [(''title'', ''title''), (''x'', [])]
   = ([AnErrorOccurred OtherException], [])
   \<and> keys [(''title'', ''title''), (''x'', [])] = [''title'', ''x'']"
  by (simp add: scrape_website_def always_def ok_page_def raise_for_status_def
      select_in_table_def parse_table_def scrape_handler_def keys_simps)

text \<open>
  C10. When the fetch of \<open>scrape_website\<close> fails, by an exception of \<open>requests.get\<close> or
  by a status for which \<open>raise_for_status\<close> raises (400 to 599), the result is the
  empty mapping whatever the rule set is, with a diagnostic; its key set is empty, so for a
  rule set that is not empty it differs from the key set of the rule set.
\<close>

theorem scrape_website_fetch_failure:
  "(fetch url = Inl e
      \<or> (fetch url = Inr response \<and> 400 \<le> status_code response \<and> status_code response < 600))
     \<longrightarrow> snd (scrape_website fetch parse select_one text_of url target_elements) = []
        \<and> keys (snd (scrape_website fetch parse select_one text_of url target_elements)) = []
        \<and> fst (scrape_website fetch parse select_one text_of url target_elements) \<noteq> []
        \<and> (target_elements \<noteq> [] \<longrightarrow>
             set (keys (snd (scrape_website fetch parse select_one text_of url target_elements)))
               \<noteq> set (keys target_elements))"
  by (auto simp: scrape_website_def scrape_handler_def raise_for_status_def keys_simps keys_eq_Nil)

theorem scrape_website_fetch_failure_witness:
  "scrape_website (failing RequestException) parse_table select_in_table id ''http://a.b/''
     [(''title'', ''title'')] = ([ErrorFetchingURL RequestException], [])
   \<and> scrape_website (always error_page) parse_table select_in_table id ''http://a.b/''
     [(''title'', ''title'')] = ([ErrorFetchingURL (HTTPError 500)], [])
   \<and> status_code error_page = 500"
  using scrape_website_fetch_failure [where fetch = "failing RequestException"
      and url = "''http://a.b/''" and e = RequestException and parse = parse_table
      and select_one = select_in_table and text_of = id
      and target_elements = "[(''title'', ''title'')]"]
    scrape_website_fetch_failure [where fetch = "always error_page"
      and url = "''http://a.b/''" and response = error_page and parse = parse_table
      and select_one = select_in_table and text_of = id
      and target_elements = "[(''title'', ''title'')]"]
  by (simp add: failing_def always_def error_page_def scrape_website_def scrape_handler_def
      raise_for_status_def)

section \<open>How the fetching operations handle a failed fetch\<close>











section \<open>Properties of check\_robots\_txt\<close>

lemma robots_url_strips_all:
  "base = [] \<or> last base \<noteq> CHR ''/''
     \<Longrightarrow> robots_url (base @ replicate n CHR ''/'') = base @ ''/robots.txt''"
  by (simp add: robots_url_def rstrip_chars_replicate)

lemma robots_url_one_slash:
  assumes ns: "\<not> suffix ''//'' url"
  shows "robots_url url = spec_robots_url url"
proof (cases url rule: rev_cases)
  case Nil
  then show ?thesis
    by (simp add: robots_url_def spec_robots_url_def strip_one_trailing_slash_def rstrip_chars_def)
next
  case (snoc base c)
  show ?thesis
  proof (cases "c = CHR ''/''")
    case False
    with snoc show ?thesis
      by (simp add: robots_url_def spec_robots_url_def strip_one_trailing_slash_def
          rstrip_chars_def)
  next
    case True
    with ns snoc have "base = [] \<or> last base \<noteq> CHR ''/''"
      by (cases base rule: rev_cases) (auto simp: suffix_def)
    from robots_url_strips_all [OF this, of 1] snoc True show ?thesis
      by (simp add: spec_robots_url_def strip_one_trailing_slash_def)
  qed
qed

text \<open>
  C3, as the code has it. \<open>check_robots_txt\<close> derives the location by removing every
  trailing slash of the URL and appending \<open>/robots.txt\<close>: for a base that does not end
  in a slash, followed by any number of slashes, the location is the base followed by
  \<open>/robots.txt\<close>. For a URL that does not end in two slashes this is the location the
  specification names. The location is the only URL the function fetches.
\<close>

theorem robots_url_strips_every_trailing_slash:
  "(base = [] \<or> last base \<noteq> CHR ''/''
      \<longrightarrow> robots_url (base @ replicate n CHR ''/'') = base @ ''/robots.txt'')
   \<and> (\<not> suffix ''//'' url \<longrightarrow> robots_url url = spec_robots_url url)
   \<and> (fetch (robots_url url) = fetch' (robots_url url)
      \<longrightarrow> check_robots_txt fetch url = check_robots_txt fetch' url)"
proof (intro conjI impI)
  assume "base = [] \<or> last base \<noteq> CHR ''/''"
  then show "robots_url (base @ replicate n CHR ''/'') = base @ ''/robots.txt''"
    by (rule robots_url_strips_all)
next
  assume "\<not> suffix ''//'' url"
  then show "robots_url url = spec_robots_url url"
    by (rule robots_url_one_slash)
next
  assume "fetch (robots_url url) = fetch' (robots_url url)"
  then show "check_robots_txt fetch url = check_robots_txt fetch' url"
    by (simp add: check_robots_txt_def)
qed

theorem robots_url_strips_every_trailing_slash_witness:
  "robots_url ''http://a.b///'' = ''http://a.b/robots.txt''
   \<and> last ''http://a.b'' \<noteq> CHR ''/''
   \<and> robots_url ''http://a.b/'' = spec_robots_url ''http://a.b/''
   \<and> \<not> suffix ''//'' ''http://a.b/''
   \<and> check_robots_txt (answering ''http://a.b/robots.txt'' (ok_page [])) ''http://a.b///''
     = check_robots_txt (always (ok_page [])) ''http://a.b///''"
proof -
  have base: "''http://a.b'' = [] \<or> last ''http://a.b'' \<noteq> CHR ''/''" by simp
  have one: "\<not> suffix ''//'' ''http://a.b/''" by (simp add: suffix_def)
  note t = robots_url_strips_every_trailing_slash [where base = "''http://a.b''" and n = 3
      and url = "''http://a.b/''"]
  from t base have three: "robots_url (''http://a.b'' @ replicate 3 CHR ''/'')
      = ''http://a.b'' @ ''/robots.txt''"
    by blast
  then have loc: "robots_url ''http://a.b///'' = ''http://a.b/robots.txt''"
    by (simp add: numeral_3_eq_3)
  from t one have same: "robots_url ''http://a.b/'' = spec_robots_url ''http://a.b/''"
    by blast
  have "answering ''http://a.b/robots.txt'' (ok_page []) (robots_url ''http://a.b///'')
      = always (ok_page []) (robots_url ''http://a.b///'')"
    by (simp add: loc answering_def always_def)
  with robots_url_strips_every_trailing_slash
    [where fetch = "answering ''http://a.b/robots.txt'' (ok_page [])"
      and fetch' = "always (ok_page [])" and url = "''http://a.b///''"]
  have "check_robots_txt (answering ''http://a.b/robots.txt'' (ok_page [])) ''http://a.b///''
     = check_robots_txt (always (ok_page [])) ''http://a.b///''"
    by blast
  with loc same one show ?thesis by simp
qed

text \<open>
  The claim C3 as it is worded fails for a URL that ends in two slashes: the code fetches
  \<open>http://a.b/robots.txt\<close> (the diagnostic for a missing file prints the location),
  where stripping exactly one slash gives \<open>http://a.b//robots.txt\<close>.
\<close>

theorem robots_url_one_slash_counterexample:
  "robots_url ''http://a.b//'' = ''http://a.b/robots.txt''
   \<and> spec_robots_url ''http://a.b//'' = ''http://a.b//robots.txt''
   \<and> check_robots_txt (always error_page) ''http://a.b//''
       = Inr ([RobotsNotFound ''http://a.b/robots.txt''], [])"
  by (simp add: robots_url_def rstrip_chars_def spec_robots_url_def strip_one_trailing_slash_def
      check_robots_txt_def always_def error_page_def)

lemma robots_loop_step:
  "robots_loop rules (l # ls) =
     (if recognized (strip l)
      then robots_loop (setdefault_append (directive_key l) (directive_value l) rules) ls
      else robots_loop rules ls)"
  by (simp add: Let_def directive_key_def directive_value_def split: prod.splits)

lemma robots_loop_keys:
  "set (keys (robots_loop rules ls))
     = set (keys rules) \<union> {directive_key l | l. l \<in> set ls \<and> recognized (strip l)}"
proof (induction ls arbitrary: rules)
  case Nil
  then show ?case by simp
next
  case (Cons l ls)
  show ?case
    unfolding robots_loop_step
    by (auto simp: Cons.IH keys_setdefault_append)
qed

lemma robots_loop_values:
  "map_of (robots_loop rules ls) k =
     (case map_of rules k of
        None \<Rightarrow> if directive_values ls k = [] then None else Some (directive_values ls k)
      | Some vs \<Rightarrow> Some (vs @ directive_values ls k))"
proof (induction ls arbitrary: rules)
  case Nil
  then show ?case by (simp add: directive_values_def split: option.splits)
next
  case (Cons l ls)
  show ?case
    unfolding robots_loop_step
    by (simp add: Cons.IH map_of_setdefault_append directive_values_def split: option.splits)
qed

lemma robots_loop_ignores:
  "\<not> recognized (strip l) \<Longrightarrow> robots_loop rules (ls @ l # ls') = robots_loop rules (ls @ ls')"
proof (induction ls arbitrary: rules)
  case Nil
  then show ?case by (simp add: robots_loop_step del: robots_loop.simps)
next
  case (Cons a ls)
  then show ?case by (simp add: robots_loop_step del: robots_loop.simps)
qed

lemma robots_loop_nothing:
  "\<forall>l \<in> set ls. \<not> recognized (strip l) \<Longrightarrow> robots_loop rules ls = rules"
  by (induction ls) (simp_all add: robots_loop_step del: robots_loop.simps(2))

lemma directive_key_prefix:
  assumes "startswith (strip l) p" "p \<noteq> []" "\<not> py_isspace (hd p)" "\<not> py_isspace (last p)"
    "CHR '':'' \<notin> set p"
  shows "startswith (directive_key l) p"
proof -
  from assms(1,5) have "prefix p (takeWhile (\<lambda>c. c \<noteq> CHR '':'') (strip l))"
    by (intro prefix_takeWhile) (auto simp: startswith_def)
  from prefix_strip [OF this assms(2-4)] show ?thesis
    by (simp add: directive_key_def partition1_fst startswith_def)
qed

lemma recognized_key:
  "recognized (strip l) \<Longrightarrow> recognized (directive_key l)"
  unfolding recognized_def
  by (elim disjE) (simp_all add: directive_key_prefix py_isspace_def)

lemma comment_not_recognized: "comment_or_blank l \<Longrightarrow> \<not> recognized (strip l)"
  by (auto simp: comment_or_blank_def recognized_def startswith_def prefix_def)

lemma check_robots_txt_ok:
  "fetch (robots_url url) = Inr response \<Longrightarrow> status_code response = 200
     \<Longrightarrow> check_robots_txt fetch url = Inr ([], robots_loop [] (splitlines (resp_text response)))"
  by (simp add: check_robots_txt_def)

lemma check_robots_txt_keys:
  assumes "check_robots_txt fetch url = Inr (printed, rules)"
  shows "\<forall>k \<in> set (keys rules). recognized k"
proof (cases "\<exists>response. fetch (robots_url url) = Inr response \<and> status_code response = 200")
  case True
  then obtain response where
    r: "fetch (robots_url url) = Inr response" "status_code response = 200"
    by blast
  with assms have "rules = robots_loop [] (splitlines (resp_text response))"
    by (simp add: check_robots_txt_ok)
  then show ?thesis
    by (auto simp: robots_loop_keys keys_simps recognized_key)
next
  case False
  with assms have "rules = []"
    by (auto simp: check_robots_txt_def split: sum.splits if_splits)
  then show ?thesis by (simp add: keys_simps)
qed

text \<open>
  C4, as the code has it. Every key of the policy that \<open>check_robots_txt\<close> returns
  begins with one of the three prefixes \<open>User-agent\<close>, \<open>Disallow\<close> and \<open>Allow\<close>: the
  keys are the trimmed texts before the first colon of the lines whose trimmed text begins
  with one of the prefixes. A line whose trimmed text begins with none of them is ignored:
  the policy is the same without the line.
\<close>

theorem robots_policy_keys:
  "(check_robots_txt fetch url = Inr (printed, rules) \<longrightarrow>
      (\<forall>k \<in> set (keys rules).
         startswith k ''User-agent'' \<or> startswith k ''Disallow'' \<or> startswith k ''Allow''))
   \<and> (check_robots_txt fetch url = Inr (printed, rules) \<and> fetch (robots_url url) = Inr response
        \<and> status_code response = 200 \<longrightarrow>
      set (keys rules) = {directive_key l | l. l \<in> set (splitlines (resp_text response))
                                          \<and> recognized (strip l)})
   \<and> (\<not> recognized (strip l)
      \<longrightarrow> robots_loop rules0 (ls @ l # ls') = robots_loop rules0 (ls @ ls'))"
proof (intro conjI impI)
  assume "check_robots_txt fetch url = Inr (printed, rules)"
  from check_robots_txt_keys [OF this]
  show "\<forall>k \<in> set (keys rules).
         startswith k ''User-agent'' \<or> startswith k ''Disallow'' \<or> startswith k ''Allow''"
    by (simp add: recognized_def)
next
  assume "check_robots_txt fetch url = Inr (printed, rules) \<and> fetch (robots_url url) = Inr response
        \<and> status_code response = 200"
  then have "rules = robots_loop [] (splitlines (resp_text response))"
    by (auto simp: check_robots_txt_def)
  then show "set (keys rules) = {directive_key l | l. l \<in> set (splitlines (resp_text response))
                                          \<and> recognized (strip l)}"
    by (simp add: robots_loop_keys keys_simps)
next
  assume "\<not> recognized (strip l)"
  then show "robots_loop rules0 (ls @ l # ls') = robots_loop rules0 (ls @ ls')"
    by (rule robots_loop_ignores)
qed

theorem robots_policy_keys_witness:
  "check_robots_txt (always (ok_page ''Allow: /x\<newline>Sitemap: /s'')) ''http://a.b/''
     = Inr ([], [(''Allow'', [''/x''])])
   \<and> (startswith ''Allow'' ''User-agent'' \<or> startswith ''Allow'' ''Disallow''
        \<or> startswith ''Allow'' ''Allow'')
   \<and> \<not> recognized (strip ''Sitemap: /s'')
   \<and> robots_loop [] [''Allow: /x'', ''Sitemap: /s''] = robots_loop [] [''Allow: /x'']"
proof -
  have run: "check_robots_txt (always (ok_page ''Allow: /x\<newline>Sitemap: /s'')) ''http://a.b/''
     = Inr ([], [(''Allow'', [''/x''])])"
    by code_simp
  have ignored: "\<not> recognized (strip ''Sitemap: /s'')"
    by code_simp
  note t = robots_policy_keys [where fetch = "always (ok_page ''Allow: /x\<newline>Sitemap: /s'')"
      and url = "''http://a.b/''" and printed = "[]" and rules = "[(''Allow'', [''/x''])]"
      and l = "''Sitemap: /s''" and ls = "[''Allow: /x'']" and ls' = "[]" and ?rules0.0 = "[]"]
  from t run have "\<forall>k \<in> set (keys [(''Allow'', [''/x''])]).
      startswith k ''User-agent'' \<or> startswith k ''Disallow'' \<or> startswith k ''Allow''"
    by blast
  then have starts: "startswith ''Allow'' ''User-agent'' \<or> startswith ''Allow'' ''Disallow''
        \<or> startswith ''Allow'' ''Allow''"
    by (simp add: keys_simps)
  from t ignored have "robots_loop [] ([''Allow: /x''] @ ''Sitemap: /s'' # [])
      = robots_loop [] ([''Allow: /x''] @ [])"
    by blast
  then have "robots_loop [] [''Allow: /x'', ''Sitemap: /s''] = robots_loop [] [''Allow: /x'']"
    by simp
  with run starts ignored show ?thesis by blast
qed

text \<open>
  The claim C4 as it is worded fails: a line that begins with a directive prefix and goes
  on with other text before the colon gives a key outside the three directives.
\<close>

theorem robots_policy_keys_counterexample:
  "check_robots_txt (always (ok_page ''Allowed: /x'')) ''http://a.b/''
     = Inr ([], [(''Allowed'', [''/x''])])
   \<and> ''Allowed'' \<notin> set directives"
  by code_simp

text \<open>
  C5. When the body of the fetched robots.txt (status 200) consists of comments and blank
  lines only, \<open>check_robots_txt\<close> returns the empty policy. For the body
  \<open>User-agent: *\nDisallow: /admin\nDisallow: /tmp\n\<close> it returns \<open>User-agent\<close> with
  \<open>*\<close> and \<open>Disallow\<close> with \<open>/admin\<close>, \<open>/tmp\<close>. In general the values of a key of the
  policy are the values of the recognized lines with that key, in appearance order.
\<close>

theorem check_robots_txt_examples:
  "(fetch (robots_url url) = Inr response \<and> status_code response = 200
      \<and> (\<forall>l \<in> set (splitlines (resp_text response)). comment_or_blank l)
      \<longrightarrow> check_robots_txt fetch url = Inr ([], []))
   \<and> check_robots_txt
         (always (ok_page ''User-agent: *\<newline>Disallow: /admin\<newline>Disallow: /tmp\<newline>'')) url
       = Inr ([], [(''User-agent'', [''*'']), (''Disallow'', [''/admin'', ''/tmp''])])
   \<and> (fetch (robots_url url) = Inr response \<and> status_code response = 200
      \<and> check_robots_txt fetch url = Inr (printed, rules)
      \<longrightarrow> map_of rules k =
            (if directive_values (splitlines (resp_text response)) k = [] then None
             else Some (directive_values (splitlines (resp_text response)) k)))"
proof (intro conjI impI)
  assume a: "fetch (robots_url url) = Inr response \<and> status_code response = 200
      \<and> (\<forall>l \<in> set (splitlines (resp_text response)). comment_or_blank l)"
  then have "robots_loop [] (splitlines (resp_text response)) = []"
    by (intro robots_loop_nothing) (blast dest: comment_not_recognized)
  with a show "check_robots_txt fetch url = Inr ([], [])"
    by (simp add: check_robots_txt_ok)
next
  show "check_robots_txt
         (always (ok_page ''User-agent: *\<newline>Disallow: /admin\<newline>Disallow: /tmp\<newline>'')) url
       = Inr ([], [(''User-agent'', [''*'']), (''Disallow'', [''/admin'', ''/tmp''])])"
    by code_simp
next
  assume "fetch (robots_url url) = Inr response \<and> status_code response = 200
      \<and> check_robots_txt fetch url = Inr (printed, rules)"
  then have "rules = robots_loop [] (splitlines (resp_text response))"
    by (auto simp: check_robots_txt_def)
  then show "map_of rules k =
            (if directive_values (splitlines (resp_text response)) k = [] then None
             else Some (directive_values (splitlines (resp_text response)) k))"
    by (simp add: robots_loop_values)
qed

theorem check_robots_txt_examples_witness:
  "check_robots_txt (always (ok_page ''# robots\<newline>\<newline>  # none  \<newline>'')) ''http://a.b/''
     = Inr ([], [])
   \<and> splitlines ''# robots\<newline>\<newline>  # none  \<newline>'' = [''# robots'', [], ''  # none  '']
   \<and> comment_or_blank ''# robots'' \<and> comment_or_blank [] \<and> comment_or_blank ''  # none  ''"
proof -
  have lines: "splitlines ''# robots\<newline>\<newline>  # none  \<newline>'' = [''# robots'', [], ''  # none  '']"
    by code_simp
  have comments: "comment_or_blank ''# robots''" "comment_or_blank []"
    "comment_or_blank ''  # none  ''"
    by code_simp+
  have fetched: "always (ok_page ''# robots\<newline>\<newline>  # none  \<newline>'') (robots_url ''http://a.b/'')
      = Inr (ok_page ''# robots\<newline>\<newline>  # none  \<newline>'')"
    "status_code (ok_page ''# robots\<newline>\<newline>  # none  \<newline>'') = 200"
    "resp_text (ok_page ''# robots\<newline>\<newline>  # none  \<newline>'') = ''# robots\<newline>\<newline>  # none  \<newline>''"
    by (simp_all add: always_def ok_page_def)
  have hyp: "\<forall>l \<in> set (splitlines (resp_text (ok_page ''# robots\<newline>\<newline>  # none  \<newline>''))).
      comment_or_blank l"
    unfolding fetched(3) lines using comments by simp
  from check_robots_txt_examples [where fetch = "always (ok_page ''# robots\<newline>\<newline>  # none  \<newline>'')"
      and url = "''http://a.b/''" and response = "ok_page ''# robots\<newline>\<newline>  # none  \<newline>''"]
    fetched(1,2) hyp
  have "check_robots_txt (always (ok_page ''# robots\<newline>\<newline>  # none  \<newline>'')) ''http://a.b/''
     = Inr ([], [])"
    by blast
  with lines comments show ?thesis by blast
qed

section \<open>Properties of save\_to\_csv\<close>

lemma writerows_general:
  "writerows fieldnames data =
     (if \<exists>r \<in> set data. wrong_fields fieldnames r then Some ValueError else None,
      concat (map (\<lambda>r. writerow (dict_to_list fieldnames r))
                (takeWhile (\<lambda>r. \<not> wrong_fields fieldnames r) data)))"
  by (induction data) (auto split: prod.splits)

lemma wrong_fields_extra_key: "wrong_fields (keys first) r \<longleftrightarrow> extra_key first r"
  by (auto simp: wrong_fields_def extra_key_def)

lemma first_no_extra_key: "\<not> extra_key first first"
  by (simp add: extra_key_def)

lemma csv_text_rows:
  "csv_text (first # rest)
     = writeheader (keys first)
       @ concat (map (\<lambda>r. writerow (dict_to_list (keys first) r)) (first # rest))"
  by (simp add: csv_text_def writeheader_def dict_to_list_def dict_get_def Let_def)

lemma save_to_csv_uniform:
  assumes "data \<noteq> []" "can_open filename" "\<forall>r \<in> set data. \<not> extra_key (hd data) r"
  shows "save_to_csv can_open files data filename
           = (None, files(filename \<mapsto> csv_text data), [DataSaved filename])"
proof -
  from assms(1) obtain first rest where data: "data = first # rest" by (cases data) auto
  from assms(3) data have none: "\<not> (\<exists>r \<in> set data. wrong_fields (keys first) r)"
    by (simp add: wrong_fields_extra_key)
  then have all: "takeWhile (\<lambda>r. \<not> wrong_fields (keys first) r) data = data"
    by (simp add: takeWhile_eq_all_conv)
  have "writerows (keys first) data
          = (None, concat (map (\<lambda>r. writerow (dict_to_list (keys first) r)) data))"
    unfolding writerows_general [of "keys first" data] all using none by simp
  with assms(2) show ?thesis
    by (simp add: save_to_csv_def data csv_text_rows del: writerows.simps)
qed

lemma save_to_csv_extra:
  assumes "data = first # rest" "\<exists>r \<in> set rest. extra_key first r"
  shows "fst (save_to_csv can_open files data filename) \<noteq> None"
    and "snd (snd (save_to_csv can_open files data filename)) = []"
    and "can_open filename \<Longrightarrow>
           save_to_csv can_open files data filename
             = (Some ValueError,
                files(filename \<mapsto> csv_text (takeWhile (\<lambda>r. \<not> extra_key first r) data)),
                [])"
proof -
  from assms have some: "\<exists>r \<in> set data. wrong_fields (keys first) r"
    by (auto simp: wrong_fields_extra_key)
  have tw: "takeWhile (\<lambda>r. \<not> wrong_fields (keys first) r) data
              = first # takeWhile (\<lambda>r. \<not> extra_key first r) rest"
    by (simp add: assms(1) wrong_fields_extra_key first_no_extra_key)
  have w: "writerows (keys first) data
          = (Some ValueError, concat (map (\<lambda>r. writerow (dict_to_list (keys first) r))
                (first # takeWhile (\<lambda>r. \<not> extra_key first r) rest)))"
    unfolding writerows_general [of "keys first" data] tw using some by simp
  have unfolded: "save_to_csv can_open files data filename =
      (if \<not> can_open filename then (Some OSError, files, [])
          else (case writerows (keys first) data of
                  (Some e, written) \<Rightarrow>
                    (Some e, files(filename \<mapsto> writeheader (keys first) @ written), [])
                | (None, written) \<Rightarrow>
                    (None, files(filename \<mapsto> writeheader (keys first) @ written),
                     [DataSaved filename])))"
    by (simp add: save_to_csv_def assms(1) del: writerows.simps)
  show "fst (save_to_csv can_open files data filename) \<noteq> None"
    unfolding unfolded w by simp
  show "snd (snd (save_to_csv can_open files data filename)) = []"
    unfolding unfolded w by simp
  show "save_to_csv can_open files data filename
             = (Some ValueError,
                files(filename \<mapsto> csv_text (takeWhile (\<lambda>r. \<not> extra_key first r) data)),
                [])" if "can_open filename"
    unfolding unfolded w using that
    by (simp add: assms(1) first_no_extra_key csv_text_rows)
qed

text \<open>
  C6, as the code has it. On the empty list \<open>save_to_csv\<close> leaves the file system as it
  is, raises nothing and prints one diagnostic. On a list that is not empty, when the file
  can be opened and no record has a key outside the keys of the first record, it raises
  nothing and the file holds a header row equal to the key sequence of the first record and
  one row per record in that column order, a missing field being an empty cell: the records
  \<open>{a: 1, b: 2}\<close>, \<open>{a: 3}\<close> give the rows \<open>a,b\<close>, \<open>1,2\<close> and \<open>3,\<close>.
\<close>

theorem save_to_csv_writes_rows:
  "save_to_csv can_open files [] filename = (None, files, [NoDataToSave])
   \<and> (data \<noteq> [] \<and> can_open filename \<and> (\<forall>r \<in> set data. \<not> extra_key (hd data) r)
      \<longrightarrow> save_to_csv can_open files data filename
            = (None, files(filename \<mapsto> csv_text data), [DataSaved filename]))
   \<and> save_to_csv writable files
         [[(''a'', Some ''1''), (''b'', Some ''2'')], [(''a'', Some ''3'')]] ''out.csv''
       = (None, files(''out.csv'' \<mapsto> ''a,b'' @ crlf @ ''1,2'' @ crlf @ ''3,'' @ crlf),
          [DataSaved ''out.csv''])"
proof (intro conjI impI)
  show "save_to_csv can_open files [] filename = (None, files, [NoDataToSave])"
    by (simp add: save_to_csv_def)
next
  assume "data \<noteq> [] \<and> can_open filename \<and> (\<forall>r \<in> set data. \<not> extra_key (hd data) r)"
  then have "data \<noteq> []" "can_open filename" "\<forall>r \<in> set data. \<not> extra_key (hd data) r"
    by blast+
  then show "save_to_csv can_open files data filename
            = (None, files(filename \<mapsto> csv_text data), [DataSaved filename])"
    by (rule save_to_csv_uniform)
next
  show "save_to_csv writable files
         [[(''a'', Some ''1''), (''b'', Some ''2'')], [(''a'', Some ''3'')]] ''out.csv''
       = (None, files(''out.csv'' \<mapsto> ''a,b'' @ crlf @ ''1,2'' @ crlf @ ''3,'' @ crlf),
          [DataSaved ''out.csv''])"
    by (simp add: save_to_csv_def writable_def keys_simps wrong_fields_def writeheader_def
        writerow_def dict_to_list_def dict_get_def join_def quote_field_def needs_quote_def
        cell_def crlf_def)
qed

theorem save_to_csv_writes_rows_witness:
  "save_to_csv writable no_files
       [[(''id'', Some ''7''), (''title'', Some ''a, b'')], [(''title'', None)]] ''t.csv''
     = (None,
        no_files(''t.csv'' \<mapsto>
          csv_text [[(''id'', Some ''7''), (''title'', Some ''a, b'')], [(''title'', None)]]),
        [DataSaved ''t.csv''])
   \<and> writable ''t.csv''
   \<and> \<not> extra_key [(''id'', Some ''7''), (''title'', Some ''a, b'')] [(''title'', None)]"
proof -
  have w: "writable ''t.csv''" by (simp add: writable_def)
  have no_extra: "\<forall>r \<in> set [[(''id'', Some ''7''), (''title'', Some ''a, b'')], [(''title'', None)]].
      \<not> extra_key (hd [[(''id'', Some ''7''), (''title'', Some ''a, b'')], [(''title'', None)]]) r"
    by (simp add: extra_key_def keys_simps)
  have ne: "[[(''id'', Some ''7''), (''title'', Some ''a, b'')], [(''title'', None)]] \<noteq> []"
    by simp
  from save_to_csv_writes_rows [where can_open = writable and filename = "''t.csv''"
      and files = no_files
      and data = "[[(''id'', Some ''7''), (''title'', Some ''a, b'')], [(''title'', None)]]"]
    ne w no_extra
  have "save_to_csv writable no_files
       [[(''id'', Some ''7''), (''title'', Some ''a, b'')], [(''title'', None)]] ''t.csv''
     = (None,
        no_files(''t.csv'' \<mapsto>
          csv_text [[(''id'', Some ''7''), (''title'', Some ''a, b'')], [(''title'', None)]]),
        [DataSaved ''t.csv''])"
    by blast
  moreover have "\<not> extra_key [(''id'', Some ''7''), (''title'', Some ''a, b'')] [(''title'', None)]"
    by (simp add: extra_key_def keys_simps)
  ultimately show ?thesis using w by blast
qed

text \<open>
  The claim C6 as it is worded fails for a list whose second record has a key that the
  first record lacks: the function raises \<open>ValueError\<close> and the file holds the header and
  the first row only, not one row per record.
\<close>

theorem save_to_csv_rows_counterexample:
  "save_to_csv writable no_files
       [[(''a'', Some ''1'')], [(''a'', Some ''3''), (''b'', Some ''2'')]] ''out.csv''
     = (Some ValueError, no_files(''out.csv'' \<mapsto> ''a'' @ crlf @ ''1'' @ crlf), [])"
  by (simp add: save_to_csv_def writable_def keys_simps wrong_fields_def writeheader_def
      writerow_def dict_to_list_def dict_get_def join_def quote_field_def needs_quote_def
      cell_def crlf_def)

text \<open>
  C9. If a record after the first has a key that is not a key of the first record,
  \<open>save_to_csv\<close> raises an exception and does not print that the data was saved; when
  the file could be opened the exception is \<open>ValueError\<close> and the file holds the header
  and the rows of the records before the first record with such a key, and nothing of the
  records from that one on.
\<close>

theorem save_to_csv_extra_key_raises:
  "data = first # rest \<and> (\<exists>r \<in> set rest. extra_key first r)
     \<longrightarrow> fst (save_to_csv can_open files data filename) \<noteq> None
        \<and> snd (snd (save_to_csv can_open files data filename)) = []
        \<and> (can_open filename \<longrightarrow>
             save_to_csv can_open files data filename
               = (Some ValueError,
                  files(filename \<mapsto> csv_text (takeWhile (\<lambda>r. \<not> extra_key first r) data)),
                  []))"
proof (intro impI)
  assume "data = first # rest \<and> (\<exists>r \<in> set rest. extra_key first r)"
  then have d: "data = first # rest" and e: "\<exists>r \<in> set rest. extra_key first r"
    by blast+
  from save_to_csv_extra [OF d e]
  show "fst (save_to_csv can_open files data filename) \<noteq> None
        \<and> snd (snd (save_to_csv can_open files data filename)) = []
        \<and> (can_open filename \<longrightarrow>
             save_to_csv can_open files data filename
               = (Some ValueError,
                  files(filename \<mapsto> csv_text (takeWhile (\<lambda>r. \<not> extra_key first r) data)),
                  []))"
    by blast
qed

theorem save_to_csv_extra_key_raises_witness:
  "save_to_csv writable no_files
       [[(''a'', Some ''1'')], [(''a'', Some ''2'')], [(''a'', Some ''3''), (''c'', Some ''x'')],
        [(''a'', Some ''4'')]] ''rows.csv''
     = (Some ValueError,
        no_files(''rows.csv'' \<mapsto> ''a'' @ crlf @ ''1'' @ crlf @ ''2'' @ crlf), [])
   \<and> extra_key [(''a'', Some ''1'')] [(''a'', Some ''3''), (''c'', Some ''x'')]"
proof -
  have extra: "extra_key [(''a'', Some ''1'')] [(''a'', Some ''3''), (''c'', Some ''x'')]"
    by (simp add: extra_key_def keys_simps)
  then have ex: "\<exists>r \<in> set [[(''a'', Some ''2'')], [(''a'', Some ''3''), (''c'', Some ''x'')],
        [(''a'', Some ''4'')]]. extra_key [(''a'', Some ''1'')] r"
    by simp
  have w: "writable ''rows.csv''" by (simp add: writable_def)
  have kept: "takeWhile (\<lambda>r. \<not> extra_key [(''a'', Some ''1'')] r)
       [[(''a'', Some ''1'')], [(''a'', Some ''2'')], [(''a'', Some ''3''), (''c'', Some ''x'')],
        [(''a'', Some ''4'')]] = [[(''a'', Some ''1'')], [(''a'', Some ''2'')]]"
    by (simp add: extra_key_def keys_simps)
  have rendered: "csv_text [[(''a'', Some ''1'')], [(''a'', Some ''2'')]]
      = ''a'' @ crlf @ ''1'' @ crlf @ ''2'' @ crlf"
    by (simp add: csv_text_def keys_simps writerow_def join_def quote_field_def needs_quote_def
        cell_def crlf_def)
  from save_to_csv_extra_key_raises [where can_open = writable and files = no_files
      and filename = "''rows.csv''" and first = "[(''a'', Some ''1'')]"
      and rest = "[[(''a'', Some ''2'')], [(''a'', Some ''3''), (''c'', Some ''x'')],
        [(''a'', Some ''4'')]]"
      and data = "[[(''a'', Some ''1'')], [(''a'', Some ''2'')],
        [(''a'', Some ''3''), (''c'', Some ''x'')], [(''a'', Some ''4'')]]"]
    ex w
  have "save_to_csv writable no_files
       [[(''a'', Some ''1'')], [(''a'', Some ''2'')], [(''a'', Some ''3''), (''c'', Some ''x'')],
        [(''a'', Some ''4'')]] ''rows.csv''
     = (Some ValueError,
        no_files(''rows.csv'' \<mapsto> csv_text (takeWhile (\<lambda>r. \<not> extra_key [(''a'', Some ''1'')] r)
           [[(''a'', Some ''1'')], [(''a'', Some ''2'')],
            [(''a'', Some ''3''), (''c'', Some ''x'')], [(''a'', Some ''4'')]])), [])"
    by blast
  then show ?thesis
    unfolding kept rendered using extra by blast
qed

end
